theory Spec2Isabelle
  imports Main
begin

section \<open>Quality scale\<close>

text \<open>
  Modelled from the spec: the \<^verbatim>\<open>QUALITY\<close> constants that
  \<^verbatim>\<open>SentVideoQualityThrottler.js\<close> imports from \<^verbatim>\<open>./VideoConstrainer\<close>, a
  file that is not among the sources. The spec gives an ordered enumeration
  \<^verbatim>\<open>THUMBNAIL < VERY_LOW < LOW < MEDIUM < HIGH\<close>; the throttler steps through it with
  \<^verbatim>\<open>i++\<close>, so the levels are consecutive integers.
\<close>

definition THUMBNAIL :: int where "THUMBNAIL = 0"
definition VERY_LOW :: int where "VERY_LOW = 1"
definition LOW :: int where "LOW = 2"
definition MEDIUM :: int where "MEDIUM = 3"
definition HIGH :: int where "HIGH = 4"

section \<open>Data model\<close>

text \<open>
  A threshold table is a JavaScript object indexed by quality level:
  \<^verbatim>\<open>i in threshold\<close> is \<open>t i \<noteq> None\<close>, and \<^verbatim>\<open>threshold[i]\<close> of a missing key is
  \<^verbatim>\<open>undefined\<close>, here \<open>None\<close>.
\<close>

type_synonym threshold = "int \<rightharpoonup> int"

text \<open>The seven bound methods created by the constructor; they are what gets subscribed.\<close>

datatype bound =
    HandleSignalingMessageBound
  | HandleLocalVideoAvailableChangeBound
  | HandleAddParticipantBound
  | HandleRemoveParticipantBound
  | HandleLocalAudioEnabledChangeBound
  | HandleLocalSpeakingChangeBound
  | AdjustVideoQualityIfNeededBound

text \<open>
  The handlers registered on an external emitter, in registration order, each with the
  event name it was registered for.
\<close>

type_synonym subscriptions = "(string \<times> bound) list"

record callParticipantModel =
  peerId :: nat
  p_videoAvailable :: bool
  p_audioAvailable :: bool
  p_handlers :: subscriptions

text \<open>A signaling message \<^verbatim>\<open>{ type, payload: { action, threshold } }\<close>.\<close>

record message =
  msg_type :: string
  payload_action :: string
  payload_threshold :: threshold

text \<open>
  The throttler together with the collaborators it reads and subscribes to: the local
  media model (\<open>lm_\<close>), the participant collection, the signaling object, the timer
  service of \<^verbatim>\<open>window\<close> (a clock in milliseconds, the pending timeouts with their due
  times, the next identifier), the calls received by
  \<^verbatim>\<open>VideoConstrainer.applyConstraints\<close>, and the calls received by the listeners of the
  throttler's own events. Listeners are opaque callbacks, identified by a number.
\<close>

record throttler =
  lm_videoAvailable :: bool
  lm_videoEnabled :: bool
  lm_audioEnabled :: bool
  lm_speaking :: bool
  lm_handlers :: subscriptions
  callParticipantModels :: "callParticipantModel list"
  cpc_handlers :: subscriptions
  signaling_handlers :: subscriptions
  clock :: nat
  timeouts :: "(nat \<times> nat) list"
  nextTimeout :: nat
  appliedConstraints :: "int list"
  handlers :: "string \<rightharpoonup> nat list"
  notified :: "(nat \<times> string \<times> threshold) list"
  gracePeriodAfterSpeakingTimeout :: "nat option"
  speakingOrInGracePeriodAfterSpeaking :: bool
  availableVideosThreshold :: threshold
  availableAudiosThreshold :: threshold

datatype error = NoThresholdForQuality int

section \<open>The decision function\<close>

text \<open>
  \<^verbatim>\<open>count >= threshold[i]\<close>: a comparison with \<^verbatim>\<open>undefined\<close> is false in
  JavaScript.
\<close>

definition reaches :: "int \<Rightarrow> int option \<Rightarrow> bool" where
  "reaches n t = (case t of None \<Rightarrow> False | Some k \<Rightarrow> n \<ge> k)"

text \<open>The \<^verbatim>\<open>forEach\<close> over the participants, with its two counters.\<close>

fun countAvailable :: "callParticipantModel list \<Rightarrow> int \<times> int \<Rightarrow> int \<times> int" where
  "countAvailable [] (v, a) = (v, a)"
| "countAvailable (m # ms) (v, a) =
     countAvailable ms
       (if p_videoAvailable m then v + 1 else v, if p_audioAvailable m then a + 1 else a)"

text \<open>
  \<^verbatim>\<open>for (let i = QUALITY.THUMBNAIL; i < QUALITY.HIGH; i++)\<close> with its early return,
  followed by \<^verbatim>\<open>return QUALITY.HIGH\<close>.
\<close>

function qualityLoop :: "threshold \<Rightarrow> threshold \<Rightarrow> int \<Rightarrow> int \<Rightarrow> int \<Rightarrow> int" where
  "qualityLoop vt at vc ac i =
     (if i < HIGH then
        (if reaches vc (vt i) \<or> reaches ac (at i) then i
         else qualityLoop vt at vc ac (i + 1))
      else HIGH)"
  by pat_completeness auto
termination
  by (relation "measure (\<lambda>(vt, at, vc, ac, i). nat (HIGH - i))") auto

definition getQualityForState :: "throttler \<Rightarrow> int" where
  "getQualityForState s =
     (if speakingOrInGracePeriodAfterSpeaking s then HIGH
      else
        (case countAvailable (callParticipantModels s) (0, 0) of
           (availableVideosCount, availableAudiosCount) \<Rightarrow>
             qualityLoop (availableVideosThreshold s) (availableAudiosThreshold s)
               availableVideosCount availableAudiosCount THUMBNAIL))"

text \<open>
  \<^verbatim>\<open>_adjustVideoQualityIfNeeded\<close>: the call of \<^verbatim>\<open>applyConstraints\<close> is recorded.
\<close>

definition adjustVideoQualityIfNeeded :: "throttler \<Rightarrow> throttler" where
  "adjustVideoQualityIfNeeded s =
     (if \<not> lm_videoAvailable s \<or> \<not> lm_videoEnabled s then s
      else s\<lparr>appliedConstraints := appliedConstraints s @ [getQualityForState s]\<rparr>)"

section \<open>The throttler's own event bus\<close>

text \<open>\<^verbatim>\<open>on\<close>: a first handler creates the list, later ones are pushed at its end.\<close>

definition on :: "string \<Rightarrow> nat \<Rightarrow> throttler \<Rightarrow> throttler" where
  "on event handler s =
     (case handlers s event of
        None \<Rightarrow> s\<lparr>handlers := (handlers s)(event \<mapsto> [handler])\<rparr>
      | Some hs \<Rightarrow> s\<lparr>handlers := (handlers s)(event \<mapsto> hs @ [handler])\<rparr>)"

text \<open>\<^verbatim>\<open>off\<close>: \<^verbatim>\<open>indexOf\<close> and \<^verbatim>\<open>splice\<close> remove the first occurrence only.\<close>

definition off :: "string \<Rightarrow> nat \<Rightarrow> throttler \<Rightarrow> throttler" where
  "off event handler s =
     (case handlers s event of
        None \<Rightarrow> s
      | Some hs \<Rightarrow> s\<lparr>handlers := (handlers s)(event \<mapsto> remove1 handler hs)\<rparr>)"

text \<open>The handlers an event of the throttler has, none when the event has no list.\<close>

definition listeners :: "throttler \<Rightarrow> string \<Rightarrow> nat list" where
  "listeners s event = (case handlers s event of None \<Rightarrow> [] | Some hs \<Rightarrow> hs)"

text \<open>
  \<^verbatim>\<open>_trigger\<close>: every handler of a copy of the list is applied, in order, to the
  throttler and the arguments; the application is recorded in \<open>notified\<close>.
\<close>

definition trigger :: "string \<Rightarrow> threshold \<Rightarrow> throttler \<Rightarrow> throttler" where
  "trigger event arg s =
     (case handlers s event of
        None \<Rightarrow> s
      | Some hs \<Rightarrow> s\<lparr>notified := notified s @ map (\<lambda>h. (h, event, arg)) hs\<rparr>)"

section \<open>Threshold validation and the setters\<close>

text \<open>\<^verbatim>\<open>threshold[i] > threshold[i - 1]\<close>, false when either side is \<^verbatim>\<open>undefined\<close>.\<close>

definition exceeds :: "int option \<Rightarrow> int option \<Rightarrow> bool" where
  "exceeds a b = (case (a, b) of (Some x, Some y) \<Rightarrow> x > y | _ \<Rightarrow> False)"

text \<open>
  The loop of \<^verbatim>\<open>_validateThreshold\<close>, \<^verbatim>\<open>for (let i = ...; i <= QUALITY.HIGH; i++)\<close>.
  The \<^verbatim>\<open>throw\<close> is \<open>Inl\<close>; the levels for which \<^verbatim>\<open>console.warn\<close> is called are
  collected.
\<close>

function validateLoop :: "threshold \<Rightarrow> int \<Rightarrow> int list \<Rightarrow> error + int list" where
  "validateLoop threshold i warned =
     (if i \<le> HIGH then
        (if threshold i = None then Inl (NoThresholdForQuality i)
         else if i > THUMBNAIL \<and> exceeds (threshold i) (threshold (i - 1))
           then validateLoop threshold (i + 1) (warned @ [i])
         else validateLoop threshold (i + 1) warned)
      else Inr warned)"
  by pat_completeness auto
termination
  by (relation "measure (\<lambda>(t, i, w). nat (HIGH + 1 - i))") auto

definition validateThreshold :: "threshold \<Rightarrow> error + int list" where
  "validateThreshold threshold = validateLoop threshold THUMBNAIL []"

definition setAvailableVideosThreshold :: "threshold \<Rightarrow> throttler \<Rightarrow> error + throttler" where
  "setAvailableVideosThreshold t s =
     (case validateThreshold t of
        Inl e \<Rightarrow> Inl e
      | Inr _ \<Rightarrow>
          Inr (adjustVideoQualityIfNeeded
                (trigger ''change:availableVideosThreshold'' t
                  (s\<lparr>availableVideosThreshold := t\<rparr>))))"

definition setAvailableAudiosThreshold :: "threshold \<Rightarrow> throttler \<Rightarrow> error + throttler" where
  "setAvailableAudiosThreshold t s =
     (case validateThreshold t of
        Inl e \<Rightarrow> Inl e
      | Inr _ \<Rightarrow>
          Inr (adjustVideoQualityIfNeeded
                (trigger ''change:availableAudiosThreshold'' t
                  (s\<lparr>availableAudiosThreshold := t\<rparr>))))"

definition handleSignalingMessage :: "message \<Rightarrow> throttler \<Rightarrow> error + throttler" where
  "handleSignalingMessage m s =
     (if msg_type m \<noteq> ''control'' then Inr s
      else if payload_action m = ''forceAvailableVideosThreshold''
        then setAvailableVideosThreshold (payload_threshold m) s
      else if payload_action m = ''forceAvailableAudiosThreshold''
        then setAvailableAudiosThreshold (payload_threshold m) s
      else Inr s)"

section \<open>Timers and the speaking grace period\<close>

text \<open>
  \<^verbatim>\<open>window.setTimeout\<close> registers a one-shot timer due after the delay and returns its
  identifier; \<^verbatim>\<open>window.clearTimeout\<close> removes the timer with the given identifier and
  does nothing for \<^verbatim>\<open>null\<close> or for a timer that is no longer pending.
\<close>

definition setTimeout :: "nat \<Rightarrow> throttler \<Rightarrow> nat \<times> throttler" where
  "setTimeout delay s =
     (nextTimeout s,
      s\<lparr>timeouts := timeouts s @ [(nextTimeout s, clock s + delay)],
        nextTimeout := nextTimeout s + 1\<rparr>)"

definition clearTimeout :: "nat option \<Rightarrow> throttler \<Rightarrow> throttler" where
  "clearTimeout h s =
     (case h of
        None \<Rightarrow> s
      | Some i \<Rightarrow> s\<lparr>timeouts := filter (\<lambda>t. fst t \<noteq> i) (timeouts s)\<rparr>)"

definition handleLocalAudioEnabledChange :: "throttler \<Rightarrow> throttler" where
  "handleLocalAudioEnabledChange s =
     (if lm_audioEnabled s then s
      else
        adjustVideoQualityIfNeeded
          ((clearTimeout (gracePeriodAfterSpeakingTimeout s) s)
             \<lparr>gracePeriodAfterSpeakingTimeout := None,
              speakingOrInGracePeriodAfterSpeaking := False\<rparr>))"

text \<open>The arrow function handed to \<^verbatim>\<open>setTimeout\<close> by \<^verbatim>\<open>_handleLocalSpeakingChange\<close>.\<close>

definition gracePeriodCallback :: "throttler \<Rightarrow> throttler" where
  "gracePeriodCallback s =
     adjustVideoQualityIfNeeded (s\<lparr>speakingOrInGracePeriodAfterSpeaking := False\<rparr>)"

definition handleLocalSpeakingChange :: "throttler \<Rightarrow> throttler" where
  "handleLocalSpeakingChange s =
     (if lm_speaking s then
        adjustVideoQualityIfNeeded
          ((clearTimeout (gracePeriodAfterSpeakingTimeout s) s)
             \<lparr>gracePeriodAfterSpeakingTimeout := None,
              speakingOrInGracePeriodAfterSpeaking := True\<rparr>)
      else
        (case setTimeout 5000 s of
           (i, s') \<Rightarrow> s'\<lparr>gracePeriodAfterSpeakingTimeout := Some i\<rparr>))"

section \<open>Subscriptions and lifecycle\<close>

text \<open>
  Modelled from the spec: \<^verbatim>\<open>on\<close> and \<^verbatim>\<open>off\<close> of the local media model, the
  participant collection, the participant models and the signaling object, whose code is
  not among the sources. Registration adds the handler for the event; unregistration
  removes one registration of it and does nothing when there is none, as the throttler's
  own \<^verbatim>\<open>on\<close> and \<^verbatim>\<open>off\<close> do.
\<close>

definition subscribe :: "string \<Rightarrow> bound \<Rightarrow> subscriptions \<Rightarrow> subscriptions" where
  "subscribe event b hs = hs @ [(event, b)]"

definition unsubscribe :: "string \<Rightarrow> bound \<Rightarrow> subscriptions \<Rightarrow> subscriptions" where
  "unsubscribe event b hs = remove1 (event, b) hs"

definition startListeningToChanges :: "throttler \<Rightarrow> throttler" where
  "startListeningToChanges s =
     adjustVideoQualityIfNeeded
       (handleLocalAudioEnabledChange
         (handleLocalSpeakingChange
           (s\<lparr>lm_handlers :=
                 subscribe ''change:speaking'' HandleLocalSpeakingChangeBound
                   (subscribe ''change:audioEnabled'' HandleLocalAudioEnabledChangeBound
                     (subscribe ''change:videoEnabled'' AdjustVideoQualityIfNeededBound
                       (lm_handlers s))),
               cpc_handlers :=
                 subscribe ''remove'' HandleRemoveParticipantBound
                   (subscribe ''add'' HandleAddParticipantBound (cpc_handlers s)),
               callParticipantModels :=
                 map (\<lambda>m. m\<lparr>p_handlers :=
                        subscribe ''change:videoAvailable'' AdjustVideoQualityIfNeededBound
                          (p_handlers m)\<rparr>)
                   (callParticipantModels s)\<rparr>)))"

definition stopListeningToChanges :: "throttler \<Rightarrow> throttler" where
  "stopListeningToChanges s =
     s\<lparr>lm_handlers :=
         unsubscribe ''change:speaking'' HandleLocalSpeakingChangeBound
           (unsubscribe ''change:audioEnabled'' HandleLocalAudioEnabledChangeBound
             (unsubscribe ''change:videoEnabled'' AdjustVideoQualityIfNeededBound
               (lm_handlers s))),
       cpc_handlers :=
         unsubscribe ''remove'' HandleRemoveParticipantBound
           (unsubscribe ''add'' HandleAddParticipantBound (cpc_handlers s)),
       callParticipantModels :=
         map (\<lambda>m. m\<lparr>p_handlers :=
                unsubscribe ''change:videoAvailable'' AdjustVideoQualityIfNeededBound
                  (p_handlers m)\<rparr>)
           (callParticipantModels s)\<rparr>"

definition handleLocalVideoAvailableChange :: "bool \<Rightarrow> throttler \<Rightarrow> throttler" where
  "handleLocalVideoAvailableChange videoAvailable s =
     (if videoAvailable then startListeningToChanges s else stopListeningToChanges s)"

text \<open>
  The two participant handlers receive the participant model; it is named by its
  \<open>peerId\<close>. A model that has left the collection is no longer part of the state, and
  unregistering from it changes nothing here.
\<close>

definition handleAddParticipant :: "nat \<Rightarrow> throttler \<Rightarrow> throttler" where
  "handleAddParticipant p s =
     adjustVideoQualityIfNeeded
       (s\<lparr>callParticipantModels :=
            map (\<lambda>m. if peerId m = p
                  then m\<lparr>p_handlers :=
                         subscribe ''change:videoAvailable'' AdjustVideoQualityIfNeededBound
                           (p_handlers m)\<rparr>
                  else m)
              (callParticipantModels s)\<rparr>)"

definition handleRemoveParticipant :: "nat \<Rightarrow> throttler \<Rightarrow> throttler" where
  "handleRemoveParticipant p s =
     adjustVideoQualityIfNeeded
       (s\<lparr>callParticipantModels :=
            map (\<lambda>m. if peerId m = p
                  then m\<lparr>p_handlers :=
                         unsubscribe ''change:videoAvailable'' AdjustVideoQualityIfNeededBound
                           (p_handlers m)\<rparr>
                  else m)
              (callParticipantModels s)\<rparr>)"

definition destroy :: "throttler \<Rightarrow> throttler" where
  "destroy s =
     stopListeningToChanges
       (s\<lparr>lm_handlers :=
            unsubscribe ''change:videoAvailable'' HandleLocalVideoAvailableChangeBound
              (lm_handlers s)\<rparr>)"

text \<open>
  The constructor. Its arguments are the collaborators as they are when it is called:
  the four fields of the local media model and the participants of the collection, with
  nobody subscribed yet, the clock at 0 and no timer pending.
\<close>

definition defaultAvailableVideosThreshold :: threshold where
  "defaultAvailableVideosThreshold =
     [HIGH \<mapsto> 2, MEDIUM \<mapsto> 4, LOW \<mapsto> 7, VERY_LOW \<mapsto> 10, THUMBNAIL \<mapsto> 15]"

definition defaultAvailableAudiosThreshold :: threshold where
  "defaultAvailableAudiosThreshold =
     [HIGH \<mapsto> 10, MEDIUM \<mapsto> 20, LOW \<mapsto> 30, VERY_LOW \<mapsto> 40, THUMBNAIL \<mapsto> 50]"

definition SentVideoQualityThrottler ::
  "bool \<Rightarrow> bool \<Rightarrow> bool \<Rightarrow> bool \<Rightarrow> callParticipantModel list \<Rightarrow> throttler" where
  "SentVideoQualityThrottler videoAvailable videoEnabled audioEnabled speaking models =
     (let s = \<lparr>lm_videoAvailable = videoAvailable,
                lm_videoEnabled = videoEnabled,
                lm_audioEnabled = audioEnabled,
                lm_speaking = speaking,
                lm_handlers =
                  subscribe ''change:videoAvailable'' HandleLocalVideoAvailableChangeBound [],
                callParticipantModels = models,
                cpc_handlers = [],
                signaling_handlers = subscribe ''message'' HandleSignalingMessageBound [],
                clock = 0,
                timeouts = [],
                nextTimeout = 1,
                appliedConstraints = [],
                handlers = Map.empty,
                notified = [],
                gracePeriodAfterSpeakingTimeout = None,
                speakingOrInGracePeriodAfterSpeaking = False,
                availableVideosThreshold = defaultAvailableVideosThreshold,
                availableAudiosThreshold = defaultAvailableAudiosThreshold\<rparr>
      in if videoAvailable then startListeningToChanges s else s)"

section \<open>Events of the collaborators\<close>

text \<open>What an emitter passes to a handler besides itself.\<close>

datatype argument = NoArgument | Flag bool | Participant nat | Msg message

text \<open>Calling a bound method with the argument of the event it was registered for.\<close>

fun invoke :: "bound \<Rightarrow> argument \<Rightarrow> throttler \<Rightarrow> error + throttler" where
  "invoke HandleSignalingMessageBound (Msg m) s = handleSignalingMessage m s"
| "invoke HandleLocalVideoAvailableChangeBound (Flag v) s =
     Inr (handleLocalVideoAvailableChange v s)"
| "invoke HandleAddParticipantBound (Participant p) s = Inr (handleAddParticipant p s)"
| "invoke HandleRemoveParticipantBound (Participant p) s = Inr (handleRemoveParticipant p s)"
| "invoke HandleLocalAudioEnabledChangeBound a s = Inr (handleLocalAudioEnabledChange s)"
| "invoke HandleLocalSpeakingChangeBound a s = Inr (handleLocalSpeakingChange s)"
| "invoke AdjustVideoQualityIfNeededBound a s = Inr (adjustVideoQualityIfNeeded s)"
| "invoke b a s = Inr s"

text \<open>
  A method of the throttler called from outside: the exception it throws, if any, and
  the throttler after the call. The only \<^verbatim>\<open>throw\<close> of the throttler, in
  \<^verbatim>\<open>_validateThreshold\<close>, comes before the first assignment of the method that runs,
  so after an exception the throttler is as it was when the method was called.
\<close>

definition call :: "(throttler \<Rightarrow> error + throttler) \<Rightarrow> throttler \<Rightarrow> error option \<times> throttler" where
  "call method s = (case method s of Inl err \<Rightarrow> (Some err, s) | Inr s' \<Rightarrow> (None, s'))"

text \<open>
  Modelled from the spec: how a collaborator delivers an event. The handlers registered
  for the event are called in registration order; a handler that throws ends the
  delivery.
\<close>

fun emit :: "subscriptions \<Rightarrow> string \<Rightarrow> argument \<Rightarrow> throttler \<Rightarrow> error option \<times> throttler" where
  "emit [] event a s = (None, s)"
| "emit ((e, b) # hs) event a s =
     (if e = event then
        (case call (invoke b a) s of
           (Some err, s') \<Rightarrow> (Some err, s')
         | (None, s') \<Rightarrow> emit hs event a s')
      else emit hs event a s)"

text \<open>
  Time passing: the clock advances and every timer that has become due fires once, in
  the order of scheduling, and is no longer pending. Every timer of the throttler carries
  the same callback, which neither schedules nor clears a timer.
\<close>

definition elapse :: "nat \<Rightarrow> throttler \<Rightarrow> throttler" where
  "elapse d s =
     fold (\<lambda>t. gracePeriodCallback)
       (filter (\<lambda>t. snd t \<le> clock s + d) (timeouts s))
       (s\<lparr>clock := clock s + d,
          timeouts := filter (\<lambda>t. \<not> snd t \<le> clock s + d) (timeouts s)\<rparr>)"

text \<open>
  Modelled from the spec: the events the collaborators raise. A model sets its field and
  then notifies; the collection adds or removes the participant and then notifies.
\<close>

datatype event =
    VideoAvailable bool
  | VideoEnabled bool
  | AudioEnabled bool
  | Speaking bool
  | ParticipantAdded callParticipantModel
  | ParticipantRemoved nat
  | ParticipantVideoAvailable nat bool
  | SignalingMessage message
  | Elapse nat

fun deliver :: "event \<Rightarrow> throttler \<Rightarrow> error option \<times> throttler" where
  "deliver (VideoAvailable v) s =
     emit (lm_handlers s) ''change:videoAvailable'' (Flag v) (s\<lparr>lm_videoAvailable := v\<rparr>)"
| "deliver (VideoEnabled v) s =
     emit (lm_handlers s) ''change:videoEnabled'' (Flag v) (s\<lparr>lm_videoEnabled := v\<rparr>)"
| "deliver (AudioEnabled v) s =
     emit (lm_handlers s) ''change:audioEnabled'' (Flag v) (s\<lparr>lm_audioEnabled := v\<rparr>)"
| "deliver (Speaking v) s =
     emit (lm_handlers s) ''change:speaking'' (Flag v) (s\<lparr>lm_speaking := v\<rparr>)"
| "deliver (ParticipantAdded m) s =
     emit (cpc_handlers s) ''add'' (Participant (peerId m))
       (s\<lparr>callParticipantModels := callParticipantModels s @ [m]\<rparr>)"
| "deliver (ParticipantRemoved p) s =
     emit (cpc_handlers s) ''remove'' (Participant p)
       (s\<lparr>callParticipantModels := filter (\<lambda>m. peerId m \<noteq> p) (callParticipantModels s)\<rparr>)"
| "deliver (ParticipantVideoAvailable p v) s =
     emit (concat (map p_handlers (filter (\<lambda>m. peerId m = p) (callParticipantModels s))))
       ''change:videoAvailable'' (Flag v)
       (s\<lparr>callParticipantModels :=
            map (\<lambda>m. if peerId m = p then m\<lparr>p_videoAvailable := v\<rparr> else m)
              (callParticipantModels s)\<rparr>)"
| "deliver (SignalingMessage m) s = emit (signaling_handlers s) ''message'' (Msg m) s"
| "deliver (Elapse d) s = (None, elapse d s)"

text \<open>A run: the events one after the other; an exception goes to the emitter's caller.\<close>

fun run :: "event list \<Rightarrow> throttler \<Rightarrow> throttler" where
  "run [] s = s"
| "run (e # es) s = run es (snd (deliver e s))"

section \<open>The decision as the specification words it\<close>

text \<open>
  The number of participants with video, and with audio, and whether a level's
  threshold is reached by one of the two counts.
\<close>

definition availableVideosCount :: "throttler \<Rightarrow> int" where
  "availableVideosCount s = int (length (filter p_videoAvailable (callParticipantModels s)))"

definition availableAudiosCount :: "throttler \<Rightarrow> int" where
  "availableAudiosCount s = int (length (filter p_audioAvailable (callParticipantModels s)))"

definition thresholdReached :: "throttler \<Rightarrow> int \<Rightarrow> bool" where
  "thresholdReached s l =
     (reaches (availableVideosCount s) (availableVideosThreshold s l)
      \<or> reaches (availableAudiosCount s) (availableAudiosThreshold s l))"

text \<open>Every pending timer is the one whose identifier the throttler holds.\<close>

definition heldOnly :: "throttler \<Rightarrow> bool" where
  "heldOnly s = (\<forall>t \<in> set (timeouts s). gracePeriodAfterSpeakingTimeout s = Some (fst t))"

section \<open>Concrete calls\<close>

text \<open>The table of the specification's scenario: it has no entry for \<open>HIGH\<close>.\<close>

definition scenarioThreshold :: threshold where
  "scenarioThreshold = [THUMBNAIL \<mapsto> 10, VERY_LOW \<mapsto> 7, LOW \<mapsto> 4, MEDIUM \<mapsto> 2]"

text \<open>The same table with an entry for every level.\<close>

definition moderatorThreshold :: threshold where
  "moderatorThreshold =
     [THUMBNAIL \<mapsto> 10, VERY_LOW \<mapsto> 7, LOW \<mapsto> 4, MEDIUM \<mapsto> 2, HIGH \<mapsto> 0]"

definition remoteParticipant :: "nat \<Rightarrow> callParticipantModel" where
  "remoteParticipant i =
     \<lparr>peerId = i, p_videoAvailable = True, p_audioAvailable = True, p_handlers = []\<rparr>"

text \<open>
  A throttler built while local video is available and enabled, audio is enabled and
  nobody speaks, in a call with five remote participants.
\<close>

definition observing :: throttler where
  "observing =
     SentVideoQualityThrottler True True True False (map remoteParticipant [1, 2, 3, 4, 5])"

definition fiveRemoteVideos :: throttler where
  "fiveRemoteVideos = observing\<lparr>availableVideosThreshold := scenarioThreshold\<rparr>"

definition speakingInLargeCall :: throttler where
  "speakingInLargeCall =
     SentVideoQualityThrottler True True True True
       (map remoteParticipant [1, 2, 3, 4, 5, 6, 7, 8, 9, 10, 11, 12, 13, 14, 15])"

text \<open>The local participant mutes and unmutes while speaking.\<close>

definition unmutedWhileSpeaking :: throttler where
  "unmutedWhileSpeaking =
     run [AudioEnabled False, AudioEnabled True] (SentVideoQualityThrottler True True True True [])"


text \<open>The two control messages of a moderator, and a control message of another kind.\<close>

definition forceVideos :: "threshold \<Rightarrow> message" where
  "forceVideos t =
     \<lparr>msg_type = ''control'', payload_action = ''forceAvailableVideosThreshold'',
      payload_threshold = t\<rparr>"

definition forceAudios :: "threshold \<Rightarrow> message" where
  "forceAudios t =
     \<lparr>msg_type = ''control'', payload_action = ''forceAvailableAudiosThreshold'',
      payload_threshold = t\<rparr>"

definition forceMute :: message where
  "forceMute =
     \<lparr>msg_type = ''control'', payload_action = ''forceMute'', payload_threshold = Map.empty\<rparr>"

text \<open>The throttler \<open>observing\<close> with a listener for the change of the video table.\<close>

definition observingWithListener :: throttler where
  "observingWithListener = on ''change:availableVideosThreshold'' 7 observing"


text \<open>
  A call in which the local participant, speaking at first, stops speaking; one second
  later local video becomes unavailable, and one second after that available again.
\<close>

definition reentered :: throttler where
  "reentered =
     run [Speaking False, Elapse 1000, VideoAvailable False, Elapse 1000, VideoAvailable True]
       (SentVideoQualityThrottler True True True True [])"

text \<open>
  The same call one second later, when the participant speaks again for one second and
  stops.
\<close>

definition stoppedSpeakingAgain :: throttler where
  "stoppedSpeakingAgain = run [Elapse 1000, Speaking True, Elapse 1000, Speaking False] reentered"

text \<open>A moderator's table that asks for the lowest quality in every call.\<close>

definition lowestThreshold :: threshold where
  "lowestThreshold = [THUMBNAIL \<mapsto> 0, VERY_LOW \<mapsto> 0, LOW \<mapsto> 0, MEDIUM \<mapsto> 0, HIGH \<mapsto> 0]"

section \<open>Auxiliary facts\<close>

lemmas QUALITY_defs = THUMBNAIL_def VERY_LOW_def LOW_def MEDIUM_def HIGH_def

declare qualityLoop.simps [simp del] validateLoop.simps [simp del]

lemmas throttler_defs = SentVideoQualityThrottler_def startListeningToChanges_def
  stopListeningToChanges_def handleLocalSpeakingChange_def handleLocalAudioEnabledChange_def
  handleLocalVideoAvailableChange_def adjustVideoQualityIfNeeded_def subscribe_def
  unsubscribe_def setTimeout_def clearTimeout_def elapse_def gracePeriodCallback_def destroy_def
  call_def

lemma level_cases:
  "THUMBNAIL \<le> i \<Longrightarrow> i \<le> HIGH \<Longrightarrow>
     i = THUMBNAIL \<or> i = VERY_LOW \<or> i = LOW \<or> i = MEDIUM \<or> i = HIGH"
  unfolding QUALITY_defs by arith

lemma countAvailable_eq:
  "countAvailable ms (v, a) =
     (v + int (length (filter p_videoAvailable ms)), a + int (length (filter p_audioAvailable ms)))"
  by (induction ms arbitrary: v a) auto

lemma qualityLoop_HIGH: "qualityLoop vt at vc ac HIGH = HIGH"
  by (subst qualityLoop.simps) simp

lemma qualityLoop_step:
  "i < HIGH \<Longrightarrow> qualityLoop vt at vc ac i =
     (if reaches vc (vt i) \<or> reaches ac (at i) then i else qualityLoop vt at vc ac (i + 1))"
  by (subst qualityLoop.simps) simp

lemma qualityLoop_scan:
  "qualityLoop vt at vc ac THUMBNAIL =
     (case find (\<lambda>l. reaches vc (vt l) \<or> reaches ac (at l)) [THUMBNAIL, VERY_LOW, LOW, MEDIUM] of
        None \<Rightarrow> HIGH | Some l \<Rightarrow> l)"
proof -
  have m: "qualityLoop vt at vc ac MEDIUM =
      (if reaches vc (vt MEDIUM) \<or> reaches ac (at MEDIUM) then MEDIUM else HIGH)"
    using qualityLoop_step [of MEDIUM vt at vc ac] qualityLoop_HIGH [of vt at vc ac]
    by (simp add: MEDIUM_def HIGH_def)
  have l: "qualityLoop vt at vc ac LOW =
      (if reaches vc (vt LOW) \<or> reaches ac (at LOW) then LOW else qualityLoop vt at vc ac MEDIUM)"
    using qualityLoop_step [of LOW vt at vc ac] by (simp add: LOW_def MEDIUM_def HIGH_def)
  have v: "qualityLoop vt at vc ac VERY_LOW =
      (if reaches vc (vt VERY_LOW) \<or> reaches ac (at VERY_LOW) then VERY_LOW
       else qualityLoop vt at vc ac LOW)"
    using qualityLoop_step [of VERY_LOW vt at vc ac] by (simp add: VERY_LOW_def LOW_def HIGH_def)
  have t: "qualityLoop vt at vc ac THUMBNAIL =
      (if reaches vc (vt THUMBNAIL) \<or> reaches ac (at THUMBNAIL) then THUMBNAIL
       else qualityLoop vt at vc ac VERY_LOW)"
    using qualityLoop_step [of THUMBNAIL vt at vc ac]
    by (simp add: THUMBNAIL_def VERY_LOW_def HIGH_def)
  show ?thesis
    by (simp add: t v l m)
qed

lemma getQualityForState_find:
  "\<not> speakingOrInGracePeriodAfterSpeaking s \<Longrightarrow>
   getQualityForState s =
     (case find (thresholdReached s) [THUMBNAIL, VERY_LOW, LOW, MEDIUM] of
        None \<Rightarrow> HIGH | Some l \<Rightarrow> l)"
  unfolding getQualityForState_def thresholdReached_def availableVideosCount_def
    availableAudiosCount_def
  by (simp add: countAvailable_eq qualityLoop_scan)

lemma scenarioThreshold_entries:
  "scenarioThreshold THUMBNAIL = Some 10" "scenarioThreshold VERY_LOW = Some 7"
  "scenarioThreshold LOW = Some 4" "scenarioThreshold MEDIUM = Some 2"
  "scenarioThreshold HIGH = None"
  by (simp_all add: scenarioThreshold_def QUALITY_defs)

lemma reaches_simps: "reaches n (Some k) = (k \<le> n)" "reaches n None = False"
  by (simp_all add: reaches_def)

lemmas evaluation = throttler_defs getQualityForState_def
  qualityLoop_scan [unfolded QUALITY_defs] reaches_simps
  defaultAvailableVideosThreshold_def defaultAvailableAudiosThreshold_def QUALITY_defs

text \<open>The state after the constructor has run in a call with five participants.\<close>

lemma observing_eq:
  "observing =
     \<lparr>lm_videoAvailable = True, lm_videoEnabled = True, lm_audioEnabled = True,
      lm_speaking = False,
      lm_handlers =
        [(''change:videoAvailable'', HandleLocalVideoAvailableChangeBound),
         (''change:videoEnabled'', AdjustVideoQualityIfNeededBound),
         (''change:audioEnabled'', HandleLocalAudioEnabledChangeBound),
         (''change:speaking'', HandleLocalSpeakingChangeBound)],
      callParticipantModels =
        map (\<lambda>i. \<lparr>peerId = i, p_videoAvailable = True, p_audioAvailable = True,
                    p_handlers =
                      [(''change:videoAvailable'', AdjustVideoQualityIfNeededBound)]\<rparr>)
          [1, 2, 3, 4, 5],
      cpc_handlers =
        [(''add'', HandleAddParticipantBound), (''remove'', HandleRemoveParticipantBound)],
      signaling_handlers = [(''message'', HandleSignalingMessageBound)],
      clock = 0, timeouts = [(1, 5000)], nextTimeout = 2,
      appliedConstraints = [MEDIUM], handlers = Map.empty, notified = [],
      gracePeriodAfterSpeakingTimeout = Some 1,
      speakingOrInGracePeriodAfterSpeaking = False,
      availableVideosThreshold = defaultAvailableVideosThreshold,
      availableAudiosThreshold = defaultAvailableAudiosThreshold\<rparr>"
  by (simp add: observing_def remoteParticipant_def evaluation)

lemma observing_facts:
  "\<not> speakingOrInGracePeriodAfterSpeaking observing"
  "lm_videoAvailable observing" "lm_videoEnabled observing"
  "availableVideosThreshold observing = defaultAvailableVideosThreshold"
  "availableAudiosThreshold observing = defaultAvailableAudiosThreshold"
  "availableVideosCount observing = 5"
  "availableAudiosCount observing = 5"
  by (simp_all add: observing_eq availableVideosCount_def availableAudiosCount_def)

lemma fiveRemoteVideos_facts:
  "\<not> speakingOrInGracePeriodAfterSpeaking fiveRemoteVideos"
  "lm_videoAvailable fiveRemoteVideos" "lm_videoEnabled fiveRemoteVideos"
  "availableVideosThreshold fiveRemoteVideos = scenarioThreshold"
  "availableAudiosThreshold fiveRemoteVideos = defaultAvailableAudiosThreshold"
  "availableVideosCount fiveRemoteVideos = 5"
  "availableAudiosCount fiveRemoteVideos = 5"
  using observing_facts
  by (simp_all add: fiveRemoteVideos_def availableVideosCount_def availableAudiosCount_def)

lemma fiveRemoteVideos_audio_not_reached:
  "\<not> reaches (availableAudiosCount fiveRemoteVideos) (availableAudiosThreshold fiveRemoteVideos l)"
  unfolding fiveRemoteVideos_facts
  by (simp add: defaultAvailableAudiosThreshold_def reaches_simps QUALITY_defs)

lemma fiveRemoteVideos_reached:
  "\<not> thresholdReached fiveRemoteVideos THUMBNAIL"
  "\<not> thresholdReached fiveRemoteVideos VERY_LOW"
  "thresholdReached fiveRemoteVideos LOW"
  unfolding thresholdReached_def
  using fiveRemoteVideos_audio_not_reached
  by (simp_all add: fiveRemoteVideos_facts(4,6) scenarioThreshold_entries reaches_simps)

lemma fiveRemoteVideos_LOW: "getQualityForState fiveRemoteVideos = LOW"
  by (simp add: getQualityForState_find fiveRemoteVideos_facts(1) fiveRemoteVideos_reached)

section \<open>The decision function\<close>

text \<open>
  C1. When \<open>speakingOrInGracePeriodAfterSpeaking\<close> is false, the decision is the first of
  the levels \<open>THUMBNAIL\<close>, \<open>VERY_LOW\<close>, \<open>LOW\<close>, \<open>MEDIUM\<close>, in this order, whose video
  threshold is reached by the number of available videos or whose audio threshold is
  reached by the number of available audios, and \<open>HIGH\<close> when there is none. With the
  video table \<open>{THUMBNAIL: 10, VERY_LOW: 7, LOW: 4, MEDIUM: 2}\<close>, five available videos and no
  audio threshold reached, the decision is \<open>LOW\<close>.
\<close>

theorem getQualityForState_first_reached:
  assumes "\<not> speakingOrInGracePeriodAfterSpeaking s"
  shows "getQualityForState s =
           (case find (thresholdReached s) [THUMBNAIL, VERY_LOW, LOW, MEDIUM] of
              None \<Rightarrow> HIGH | Some l \<Rightarrow> l)
         \<and> (availableVideosThreshold s = scenarioThreshold \<and> availableVideosCount s = 5
              \<and> \<not> reaches (availableAudiosCount s) (availableAudiosThreshold s THUMBNAIL)
              \<and> \<not> reaches (availableAudiosCount s) (availableAudiosThreshold s VERY_LOW)
              \<and> \<not> reaches (availableAudiosCount s) (availableAudiosThreshold s LOW)
              \<and> \<not> reaches (availableAudiosCount s) (availableAudiosThreshold s MEDIUM)
            \<longrightarrow> getQualityForState s = LOW)"
proof (intro conjI impI)
  show scan: "getQualityForState s =
      (case find (thresholdReached s) [THUMBNAIL, VERY_LOW, LOW, MEDIUM] of
         None \<Rightarrow> HIGH | Some l \<Rightarrow> l)"
    using assms by (rule getQualityForState_find)
  assume sc: "availableVideosThreshold s = scenarioThreshold \<and> availableVideosCount s = 5
      \<and> \<not> reaches (availableAudiosCount s) (availableAudiosThreshold s THUMBNAIL)
      \<and> \<not> reaches (availableAudiosCount s) (availableAudiosThreshold s VERY_LOW)
      \<and> \<not> reaches (availableAudiosCount s) (availableAudiosThreshold s LOW)
      \<and> \<not> reaches (availableAudiosCount s) (availableAudiosThreshold s MEDIUM)"
  then have "\<not> thresholdReached s THUMBNAIL" "\<not> thresholdReached s VERY_LOW"
    "thresholdReached s LOW"
    by (simp_all add: thresholdReached_def scenarioThreshold_entries reaches_def)
  then show "getQualityForState s = LOW"
    by (simp add: scan)
qed

theorem getQualityForState_first_reached_witness:
  "\<not> speakingOrInGracePeriodAfterSpeaking fiveRemoteVideos
   \<and> availableVideosThreshold fiveRemoteVideos = scenarioThreshold
   \<and> availableVideosCount fiveRemoteVideos = 5
   \<and> thresholdReached fiveRemoteVideos LOW
   \<and> getQualityForState fiveRemoteVideos = LOW"
proof -
  note quiet = fiveRemoteVideos_facts(1)
  have scenario: "availableVideosThreshold fiveRemoteVideos = scenarioThreshold
      \<and> availableVideosCount fiveRemoteVideos = 5
      \<and> \<not> reaches (availableAudiosCount fiveRemoteVideos)
            (availableAudiosThreshold fiveRemoteVideos THUMBNAIL)
      \<and> \<not> reaches (availableAudiosCount fiveRemoteVideos)
            (availableAudiosThreshold fiveRemoteVideos VERY_LOW)
      \<and> \<not> reaches (availableAudiosCount fiveRemoteVideos)
            (availableAudiosThreshold fiveRemoteVideos LOW)
      \<and> \<not> reaches (availableAudiosCount fiveRemoteVideos)
            (availableAudiosThreshold fiveRemoteVideos MEDIUM)"
    using fiveRemoteVideos_facts(4,6) fiveRemoteVideos_audio_not_reached by blast
  from getQualityForState_first_reached [OF quiet, THEN conjunct2] scenario
  have "getQualityForState fiveRemoteVideos = LOW" by blast
  with quiet scenario fiveRemoteVideos_reached(3) show ?thesis by blast
qed

text \<open>
  C2. When \<open>speakingOrInGracePeriodAfterSpeaking\<close> is true the decision is \<open>HIGH\<close>, and it
  stays \<open>HIGH\<close> whatever participants and threshold tables are put in the state.
\<close>

theorem getQualityForState_speaking:
  assumes "speakingOrInGracePeriodAfterSpeaking s"
  shows "getQualityForState s = HIGH
         \<and> getQualityForState
             (s\<lparr>callParticipantModels := ms, availableVideosThreshold := vt,
                availableAudiosThreshold := at\<rparr>) = HIGH"
  using assms by (simp add: getQualityForState_def)

lemma constructed_speaking:
  "speakingOrInGracePeriodAfterSpeaking (SentVideoQualityThrottler True True True True ms)"
  "availableVideosThreshold (SentVideoQualityThrottler True True True True ms) =
     defaultAvailableVideosThreshold"
  "availableVideosCount (SentVideoQualityThrottler True True True True ms) =
     int (length (filter p_videoAvailable ms))"
  by (simp_all add: throttler_defs availableVideosCount_def filter_map o_def)

lemma speakingInLargeCall_facts:
  "speakingOrInGracePeriodAfterSpeaking speakingInLargeCall"
  "availableVideosCount speakingInLargeCall = 15"
  "availableVideosThreshold speakingInLargeCall = defaultAvailableVideosThreshold"
  by (simp_all add: speakingInLargeCall_def constructed_speaking remoteParticipant_def)

theorem getQualityForState_speaking_witness:
  "speakingOrInGracePeriodAfterSpeaking speakingInLargeCall
   \<and> availableVideosCount speakingInLargeCall = 15
   \<and> availableVideosThreshold speakingInLargeCall THUMBNAIL = Some 15
   \<and> getQualityForState speakingInLargeCall = HIGH"
  using getQualityForState_speaking [of speakingInLargeCall]
  by (simp add: speakingInLargeCall_facts defaultAvailableVideosThreshold_def QUALITY_defs)

section \<open>Re-evaluation\<close>

text \<open>
  C5. \<open>adjustVideoQualityIfNeeded\<close> calls \<open>applyConstraints\<close> exactly when local video is
  both available and enabled, and then with the level of \<open>getQualityForState\<close>; nothing
  else changes. A second call makes the same request again: there is no check that the
  level has changed.
\<close>

theorem adjustVideoQualityIfNeeded_applies:
  "(lm_videoAvailable s \<and> lm_videoEnabled s \<longrightarrow>
      adjustVideoQualityIfNeeded s =
        s\<lparr>appliedConstraints := appliedConstraints s @ [getQualityForState s]\<rparr>
      \<and> appliedConstraints (adjustVideoQualityIfNeeded (adjustVideoQualityIfNeeded s)) =
          appliedConstraints s @ [getQualityForState s, getQualityForState s])
   \<and> (\<not> (lm_videoAvailable s \<and> lm_videoEnabled s) \<longrightarrow> adjustVideoQualityIfNeeded s = s)"
  by (auto simp: adjustVideoQualityIfNeeded_def getQualityForState_def)

theorem adjustVideoQualityIfNeeded_applies_witness:
  "lm_videoAvailable fiveRemoteVideos \<and> lm_videoEnabled fiveRemoteVideos
   \<and> appliedConstraints (adjustVideoQualityIfNeeded fiveRemoteVideos) =
       appliedConstraints fiveRemoteVideos @ [LOW]
   \<and> appliedConstraints (adjustVideoQualityIfNeeded (adjustVideoQualityIfNeeded fiveRemoteVideos)) =
       appliedConstraints fiveRemoteVideos @ [LOW, LOW]
   \<and> \<not> lm_videoEnabled (fiveRemoteVideos\<lparr>lm_videoEnabled := False\<rparr>)
   \<and> adjustVideoQualityIfNeeded (fiveRemoteVideos\<lparr>lm_videoEnabled := False\<rparr>) =
       fiveRemoteVideos\<lparr>lm_videoEnabled := False\<rparr>"
proof -
  note a = fiveRemoteVideos_facts(2,3)
  note q = fiveRemoteVideos_LOW
  have on: "adjustVideoQualityIfNeeded fiveRemoteVideos =
        fiveRemoteVideos\<lparr>appliedConstraints :=
          appliedConstraints fiveRemoteVideos @ [getQualityForState fiveRemoteVideos]\<rparr>
      \<and> appliedConstraints
          (adjustVideoQualityIfNeeded (adjustVideoQualityIfNeeded fiveRemoteVideos)) =
        appliedConstraints fiveRemoteVideos
          @ [getQualityForState fiveRemoteVideos, getQualityForState fiveRemoteVideos]"
    using adjustVideoQualityIfNeeded_applies [of fiveRemoteVideos] a by blast
  have 1: "appliedConstraints (adjustVideoQualityIfNeeded fiveRemoteVideos) =
      appliedConstraints fiveRemoteVideos @ [LOW]"
    using on [THEN conjunct1] by (simp add: q)
  have 2: "appliedConstraints
        (adjustVideoQualityIfNeeded (adjustVideoQualityIfNeeded fiveRemoteVideos)) =
      appliedConstraints fiveRemoteVideos @ [LOW, LOW]"
    using on [THEN conjunct2] by (simp add: q)
  have off: "adjustVideoQualityIfNeeded (fiveRemoteVideos\<lparr>lm_videoEnabled := False\<rparr>) =
      fiveRemoteVideos\<lparr>lm_videoEnabled := False\<rparr>"
    using adjustVideoQualityIfNeeded_applies [of "fiveRemoteVideos\<lparr>lm_videoEnabled := False\<rparr>"]
    by simp
  show ?thesis
    using a 1 2 off by simp
qed

section \<open>The audio handler while audio is enabled\<close>

text \<open>
  C10. When \<open>audioEnabled\<close> is true, \<open>handleLocalAudioEnabledChange\<close> returns at once: the
  whole state is as before, so the grace flag keeps its value, no timer is cleared or
  set and \<open>applyConstraints\<close> is not called. In the witness the participant has muted
  and unmuted while speaking: the flag stays false although \<open>speaking\<close> is true.
\<close>

theorem handleLocalAudioEnabledChange_unmuted:
  assumes "lm_audioEnabled s"
  shows "handleLocalAudioEnabledChange s = s"
  using assms by (simp add: handleLocalAudioEnabledChange_def)

theorem handleLocalAudioEnabledChange_unmuted_witness:
  "lm_audioEnabled unmutedWhileSpeaking \<and> lm_speaking unmutedWhileSpeaking
   \<and> \<not> speakingOrInGracePeriodAfterSpeaking unmutedWhileSpeaking
   \<and> handleLocalAudioEnabledChange unmutedWhileSpeaking = unmutedWhileSpeaking"
proof -
  have a: "lm_audioEnabled unmutedWhileSpeaking" "lm_speaking unmutedWhileSpeaking"
    "\<not> speakingOrInGracePeriodAfterSpeaking unmutedWhileSpeaking"
    by (simp_all add: unmutedWhileSpeaking_def throttler_defs)
  show ?thesis
    using handleLocalAudioEnabledChange_unmuted [of unmutedWhileSpeaking] by (simp add: a)
qed

section \<open>Validation\<close>

lemma validateLoop_Inl:
  "validateLoop t i w = Inl e \<Longrightarrow>
     \<exists>j. e = NoThresholdForQuality j \<and> i \<le> j \<and> j \<le> HIGH \<and> t j = None
         \<and> (\<forall>k. i \<le> k \<and> k < j \<longrightarrow> t k \<noteq> None)"
proof (induction t i w rule: validateLoop.induct)
  case (1 t i w)
  show ?case
  proof (cases "i \<le> HIGH")
    case False
    with "1.prems" show ?thesis by (simp add: validateLoop.simps [of t i w])
  next
    case le: True
    show ?thesis
    proof (cases "t i = None")
      case True
      with le "1.prems" have "e = NoThresholdForQuality i"
        by (simp add: validateLoop.simps [of t i w])
      with le True show ?thesis by auto
    next
      case False
      let ?w = "if i > THUMBNAIL \<and> exceeds (t i) (t (i - 1)) then w @ [i] else w"
      from le False "1.prems" have "validateLoop t (i + 1) ?w = Inl e"
        by (auto simp: validateLoop.simps [of t i w] split: if_splits)
      with "1.IH" le False obtain j where j: "e = NoThresholdForQuality j" "i + 1 \<le> j" "j \<le> HIGH"
        "t j = None" "\<forall>k. i + 1 \<le> k \<and> k < j \<longrightarrow> t k \<noteq> None"
        by (auto split: if_splits)
      have "\<forall>k. i \<le> k \<and> k < j \<longrightarrow> t k \<noteq> None"
      proof (intro allI impI)
        fix k assume "i \<le> k \<and> k < j"
        then have "k = i \<or> (i + 1 \<le> k \<and> k < j)" by auto
        with False j(5) show "t k \<noteq> None" by auto
      qed
      with j show ?thesis by auto
    qed
  qed
qed

lemma validateLoop_Inr:
  "validateLoop t i w = Inr w' \<Longrightarrow> \<forall>j. i \<le> j \<and> j \<le> HIGH \<longrightarrow> t j \<noteq> None"
proof (induction t i w rule: validateLoop.induct)
  case (1 t i w)
  show ?case
  proof (cases "i \<le> HIGH")
    case False
    then show ?thesis by auto
  next
    case le: True
    from le "1.prems" have ti: "t i \<noteq> None"
      by (auto simp: validateLoop.simps [of t i w] split: if_splits)
    let ?w = "if i > THUMBNAIL \<and> exceeds (t i) (t (i - 1)) then w @ [i] else w"
    from le ti "1.prems" have "validateLoop t (i + 1) ?w = Inr w'"
      by (auto simp: validateLoop.simps [of t i w] split: if_splits)
    with "1.IH" le ti have rest: "\<forall>j. i + 1 \<le> j \<and> j \<le> HIGH \<longrightarrow> t j \<noteq> None"
      by (auto split: if_splits)
    show ?thesis
    proof (intro allI impI)
      fix j assume "i \<le> j \<and> j \<le> HIGH"
      then have "j = i \<or> (i + 1 \<le> j \<and> j \<le> HIGH)" by auto
      with ti rest show "t j \<noteq> None" by auto
    qed
  qed
qed

lemma validateThreshold_fails_iff:
  "(\<exists>e. validateThreshold t = Inl e) \<longleftrightarrow> (\<exists>i. THUMBNAIL \<le> i \<and> i \<le> HIGH \<and> t i = None)"
proof
  assume "\<exists>e. validateThreshold t = Inl e"
  then obtain e where "validateLoop t THUMBNAIL [] = Inl e" by (auto simp: validateThreshold_def)
  from validateLoop_Inl [OF this] show "\<exists>i. THUMBNAIL \<le> i \<and> i \<le> HIGH \<and> t i = None" by blast
next
  assume miss: "\<exists>i. THUMBNAIL \<le> i \<and> i \<le> HIGH \<and> t i = None"
  show "\<exists>e. validateThreshold t = Inl e"
  proof (cases "validateThreshold t")
    case (Inl e)
    then show ?thesis by blast
  next
    case (Inr w')
    then have "validateLoop t THUMBNAIL [] = Inr w'" by (simp add: validateThreshold_def)
    from validateLoop_Inr [OF this] miss show ?thesis by blast
  qed
qed

lemma validateThreshold_first_missing:
  "validateThreshold t = Inl e \<Longrightarrow>
     \<exists>j. e = NoThresholdForQuality j \<and> THUMBNAIL \<le> j \<and> j \<le> HIGH \<and> t j = None
         \<and> (\<forall>k. THUMBNAIL \<le> k \<and> k < j \<longrightarrow> t k \<noteq> None)"
  unfolding validateThreshold_def by (rule validateLoop_Inl)

lemma validateThreshold_scenarioThreshold:
  "validateThreshold scenarioThreshold = Inl (NoThresholdForQuality HIGH)"
proof -
  have "\<exists>e. validateThreshold scenarioThreshold = Inl e"
    unfolding validateThreshold_fails_iff
    using scenarioThreshold_entries(5) by (intro exI [of _ HIGH]) (simp add: QUALITY_defs)
  then obtain e where e: "validateThreshold scenarioThreshold = Inl e" ..
  from validateThreshold_first_missing [OF e] obtain j where
    j: "e = NoThresholdForQuality j" "THUMBNAIL \<le> j" "j \<le> HIGH" "scenarioThreshold j = None"
    by blast
  from level_cases [OF j(2,3)] j(4) have "j = HIGH"
    by (auto simp: scenarioThreshold_entries)
  with e j(1) show ?thesis by simp
qed

lemma defaults_complete:
  "THUMBNAIL \<le> i \<Longrightarrow> i \<le> HIGH \<Longrightarrow> defaultAvailableVideosThreshold i \<noteq> None"
  "THUMBNAIL \<le> i \<Longrightarrow> i \<le> HIGH \<Longrightarrow> defaultAvailableAudiosThreshold i \<noteq> None"
  "THUMBNAIL \<le> i \<Longrightarrow> i \<le> HIGH \<Longrightarrow> moderatorThreshold i \<noteq> None"
  using level_cases [of i]
  by (auto simp: defaultAvailableVideosThreshold_def defaultAvailableAudiosThreshold_def
      moderatorThreshold_def QUALITY_defs)

section \<open>The threshold setters\<close>

text \<open>
  C4, as the specification states it, fails: the table of the specification's scenario
  has an entry for every level but \<open>HIGH\<close>, and both setters reject it, reporting
  \<open>HIGH\<close> as the level without threshold.
\<close>

theorem setters_reject_table_without_HIGH:
  "scenarioThreshold THUMBNAIL \<noteq> None \<and> scenarioThreshold VERY_LOW \<noteq> None
   \<and> scenarioThreshold LOW \<noteq> None \<and> scenarioThreshold MEDIUM \<noteq> None
   \<and> call (setAvailableVideosThreshold scenarioThreshold) observing =
       (Some (NoThresholdForQuality HIGH), observing)
   \<and> call (setAvailableAudiosThreshold scenarioThreshold) observing =
       (Some (NoThresholdForQuality HIGH), observing)"
  by (simp add: scenarioThreshold_entries setAvailableVideosThreshold_def
      setAvailableAudiosThreshold_def validateThreshold_scenarioThreshold call_def)

text \<open>
  C4, amended. A setter fails exactly when the table lacks an entry for one of the five
  levels from \<open>THUMBNAIL\<close> to \<open>HIGH\<close>, the maximum included. The failure is the
  \<^verbatim>\<open>throw\<close> of the validation, which comes before the assignment: the throttler is
  as before the call and keeps both tables. An accepted table replaces the one it is set
  for and leaves the other table alone.
\<close>

theorem setters_fail_iff_level_missing:
  "((\<exists>e. setAvailableVideosThreshold t s = Inl e)
      \<longleftrightarrow> (\<exists>i. THUMBNAIL \<le> i \<and> i \<le> HIGH \<and> t i = None))
   \<and> ((\<exists>e. setAvailableAudiosThreshold t s = Inl e)
      \<longleftrightarrow> (\<exists>i. THUMBNAIL \<le> i \<and> i \<le> HIGH \<and> t i = None))
   \<and> ((\<exists>i. THUMBNAIL \<le> i \<and> i \<le> HIGH \<and> t i = None) \<longrightarrow>
         snd (call (setAvailableVideosThreshold t) s) = s
         \<and> snd (call (setAvailableAudiosThreshold t) s) = s)
   \<and> (\<forall>s'. setAvailableVideosThreshold t s = Inr s' \<longrightarrow>
         availableVideosThreshold s' = t
         \<and> availableAudiosThreshold s' = availableAudiosThreshold s)
   \<and> (\<forall>s'. setAvailableAudiosThreshold t s = Inr s' \<longrightarrow>
         availableAudiosThreshold s' = t
         \<and> availableVideosThreshold s' = availableVideosThreshold s)"
proof -
  have v: "(\<exists>e. setAvailableVideosThreshold t s = Inl e) \<longleftrightarrow> (\<exists>e. validateThreshold t = Inl e)"
    by (auto simp: setAvailableVideosThreshold_def split: sum.splits)
  have a: "(\<exists>e. setAvailableAudiosThreshold t s = Inl e) \<longleftrightarrow> (\<exists>e. validateThreshold t = Inl e)"
    by (auto simp: setAvailableAudiosThreshold_def split: sum.splits)
  have keep: "(\<exists>e. validateThreshold t = Inl e) \<longrightarrow>
         snd (call (setAvailableVideosThreshold t) s) = s
         \<and> snd (call (setAvailableAudiosThreshold t) s) = s"
    by (auto simp: call_def setAvailableVideosThreshold_def setAvailableAudiosThreshold_def)
  have v': "\<forall>s'. setAvailableVideosThreshold t s = Inr s' \<longrightarrow>
         availableVideosThreshold s' = t
         \<and> availableAudiosThreshold s' = availableAudiosThreshold s"
    by (auto simp: setAvailableVideosThreshold_def adjustVideoQualityIfNeeded_def trigger_def
        split: sum.splits option.splits)
  have a': "\<forall>s'. setAvailableAudiosThreshold t s = Inr s' \<longrightarrow>
         availableAudiosThreshold s' = t
         \<and> availableVideosThreshold s' = availableVideosThreshold s"
    by (auto simp: setAvailableAudiosThreshold_def adjustVideoQualityIfNeeded_def trigger_def
        split: sum.splits option.splits)
  show ?thesis
    unfolding v a using keep v' a' unfolding validateThreshold_fails_iff by blast
qed

theorem setters_fail_iff_level_missing_witness:
  "(\<exists>e. setAvailableVideosThreshold scenarioThreshold observing = Inl e)
   \<and> (\<exists>e. setAvailableAudiosThreshold scenarioThreshold observing = Inl e)
   \<and> snd (call (setAvailableVideosThreshold scenarioThreshold) observing) = observing
   \<and> snd (call (setAvailableAudiosThreshold scenarioThreshold) observing) = observing
   \<and> (\<exists>s'. setAvailableVideosThreshold moderatorThreshold observing = Inr s'
          \<and> availableVideosThreshold s' = moderatorThreshold)
   \<and> (\<exists>s'. setAvailableAudiosThreshold moderatorThreshold observing = Inr s'
          \<and> availableAudiosThreshold s' = moderatorThreshold)"
proof -
  have miss: "\<exists>i. THUMBNAIL \<le> i \<and> i \<le> HIGH \<and> scenarioThreshold i = None"
    using scenarioThreshold_entries(5) by (intro exI [of _ HIGH]) (simp add: QUALITY_defs)
  have full: "\<not> (\<exists>i. THUMBNAIL \<le> i \<and> i \<le> HIGH \<and> moderatorThreshold i = None)"
    using defaults_complete(3) by blast
  note r = setters_fail_iff_level_missing [of scenarioThreshold observing]
  note m = setters_fail_iff_level_missing [of moderatorThreshold observing]
  have 1: "\<exists>e. setAvailableVideosThreshold scenarioThreshold observing = Inl e"
    using r miss by blast
  have 2: "\<exists>e. setAvailableAudiosThreshold scenarioThreshold observing = Inl e"
    using r miss by blast
  have k: "snd (call (setAvailableVideosThreshold scenarioThreshold) observing) = observing"
    "snd (call (setAvailableAudiosThreshold scenarioThreshold) observing) = observing"
    using r miss by blast+
  have 3: "\<exists>s'. setAvailableVideosThreshold moderatorThreshold observing = Inr s'
          \<and> availableVideosThreshold s' = moderatorThreshold"
  proof (cases "setAvailableVideosThreshold moderatorThreshold observing")
    case (Inl e)
    with m full show ?thesis by blast
  next
    case (Inr s')
    with m show ?thesis by blast
  qed
  have 4: "\<exists>s'. setAvailableAudiosThreshold moderatorThreshold observing = Inr s'
          \<and> availableAudiosThreshold s' = moderatorThreshold"
  proof (cases "setAvailableAudiosThreshold moderatorThreshold observing")
    case (Inl e)
    with m full show ?thesis by blast
  next
    case (Inr s')
    with m show ?thesis by blast
  qed
  from 1 2 k 3 4 show ?thesis by blast
qed

section \<open>Control messages\<close>

lemma validateThreshold_complete:
  assumes "\<forall>i. THUMBNAIL \<le> i \<and> i \<le> HIGH \<longrightarrow> t i \<noteq> None"
  shows "\<exists>w. validateThreshold t = Inr w"
proof (cases "validateThreshold t")
  case (Inl e)
  then have "\<exists>i. THUMBNAIL \<le> i \<and> i \<le> HIGH \<and> t i = None"
    using validateThreshold_fails_iff [of t] by blast
  with assms show ?thesis by blast
next
  case (Inr w)
  then show ?thesis by blast
qed

lemma setAvailableVideosThreshold_complete:
  assumes "\<forall>i. THUMBNAIL \<le> i \<and> i \<le> HIGH \<longrightarrow> t i \<noteq> None"
  shows "setAvailableVideosThreshold t s =
           Inr (adjustVideoQualityIfNeeded
                 (trigger ''change:availableVideosThreshold'' t
                   (s\<lparr>availableVideosThreshold := t\<rparr>)))"
  using validateThreshold_complete [OF assms] by (auto simp: setAvailableVideosThreshold_def)

lemma setAvailableAudiosThreshold_complete:
  assumes "\<forall>i. THUMBNAIL \<le> i \<and> i \<le> HIGH \<longrightarrow> t i \<noteq> None"
  shows "setAvailableAudiosThreshold t s =
           Inr (adjustVideoQualityIfNeeded
                 (trigger ''change:availableAudiosThreshold'' t
                   (s\<lparr>availableAudiosThreshold := t\<rparr>)))"
  using validateThreshold_complete [OF assms] by (auto simp: setAvailableAudiosThreshold_def)

lemma getQualityForState_notified [simp]:
  "getQualityForState (s\<lparr>notified := n\<rparr>) = getQualityForState s"
  by (simp add: getQualityForState_def)

lemma replaced_videos:
  fixes s :: throttler and t :: threshold
  defines "s' \<equiv> adjustVideoQualityIfNeeded
                  (trigger ''change:availableVideosThreshold'' t (s\<lparr>availableVideosThreshold := t\<rparr>))"
  shows "availableVideosThreshold s' = t"
    and "availableAudiosThreshold s' = availableAudiosThreshold s"
    and "notified s' =
           notified s @ map (\<lambda>h. (h, ''change:availableVideosThreshold'', t))
                          (listeners s ''change:availableVideosThreshold'')"
    and "appliedConstraints s' =
           (if lm_videoAvailable s \<and> lm_videoEnabled s
            then appliedConstraints s @ [getQualityForState (s\<lparr>availableVideosThreshold := t\<rparr>)]
            else appliedConstraints s)"
  unfolding s'_def
  by (simp_all add: adjustVideoQualityIfNeeded_def trigger_def listeners_def split: option.splits)

lemma replaced_audios:
  fixes s :: throttler and t :: threshold
  defines "s' \<equiv> adjustVideoQualityIfNeeded
                  (trigger ''change:availableAudiosThreshold'' t (s\<lparr>availableAudiosThreshold := t\<rparr>))"
  shows "availableAudiosThreshold s' = t"
    and "availableVideosThreshold s' = availableVideosThreshold s"
    and "notified s' =
           notified s @ map (\<lambda>h. (h, ''change:availableAudiosThreshold'', t))
                          (listeners s ''change:availableAudiosThreshold'')"
    and "appliedConstraints s' =
           (if lm_videoAvailable s \<and> lm_videoEnabled s
            then appliedConstraints s @ [getQualityForState (s\<lparr>availableAudiosThreshold := t\<rparr>)]
            else appliedConstraints s)"
  unfolding s'_def
  by (simp_all add: adjustVideoQualityIfNeeded_def trigger_def listeners_def split: option.splits)

lemma observing_signaling:
  "signaling_handlers observing = [(''message'', HandleSignalingMessageBound)]"
  by (simp add: observing_eq)

text \<open>
  C3, as the specification states it, fails: a control message that forces the video
  table of the specification's scenario, which has no entry for \<open>HIGH\<close>, makes the
  handler throw. The throttler is as before, with its own table, no listener is
  notified and \<open>applyConstraints\<close> is not called.
\<close>

theorem control_message_table_without_HIGH_rejected:
  "msg_type (forceVideos scenarioThreshold) = ''control''
   \<and> payload_action (forceVideos scenarioThreshold) = ''forceAvailableVideosThreshold''
   \<and> payload_threshold (forceVideos scenarioThreshold) = scenarioThreshold
   \<and> handleSignalingMessage (forceVideos scenarioThreshold) observing =
       Inl (NoThresholdForQuality HIGH)
   \<and> deliver (SignalingMessage (forceVideos scenarioThreshold)) observing =
       (Some (NoThresholdForQuality HIGH), observing)
   \<and> availableVideosThreshold observing HIGH = Some 2
   \<and> scenarioThreshold HIGH = None"
proof -
  have h: "handleSignalingMessage (forceVideos scenarioThreshold) observing =
      Inl (NoThresholdForQuality HIGH)"
    by (simp add: handleSignalingMessage_def forceVideos_def setAvailableVideosThreshold_def
        validateThreshold_scenarioThreshold)
  have d: "deliver (SignalingMessage (forceVideos scenarioThreshold)) observing =
      (Some (NoThresholdForQuality HIGH), observing)"
    by (simp add: observing_signaling h call_def)
  have t: "availableVideosThreshold observing HIGH = Some 2"
    by (simp add: observing_facts(4) defaultAvailableVideosThreshold_def QUALITY_defs)
  show ?thesis
    using h d t by (simp add: forceVideos_def scenarioThreshold_entries)
qed

text \<open>
  C3, amended. A message of type \<open>control\<close> whose action is
  \<open>forceAvailableVideosThreshold\<close> (or \<open>forceAvailableAudiosThreshold\<close>) and whose table
  has an entry for every level from \<open>THUMBNAIL\<close> to \<open>HIGH\<close> replaces the video (or
  audio) table by the table of the payload, whatever the table was; every listener of
  the change is called with the new table, in registration order, and the quality is
  re-evaluated with the new table. When the table lacks an entry for one of the five
  levels the handler throws and the throttler is as before. A message of another type, or a control message with
  another action, leaves the throttler as it is.
\<close>

theorem handleSignalingMessage_control:
  "(msg_type m = ''control'' \<and> payload_action m = ''forceAvailableVideosThreshold''
      \<and> (\<forall>i. THUMBNAIL \<le> i \<and> i \<le> HIGH \<longrightarrow> payload_threshold m i \<noteq> None) \<longrightarrow>
    (\<exists>s'. handleSignalingMessage m s = Inr s'
       \<and> availableVideosThreshold s' = payload_threshold m
       \<and> availableAudiosThreshold s' = availableAudiosThreshold s
       \<and> notified s' =
           notified s @ map (\<lambda>h. (h, ''change:availableVideosThreshold'', payload_threshold m))
                          (listeners s ''change:availableVideosThreshold'')
       \<and> appliedConstraints s' =
           (if lm_videoAvailable s \<and> lm_videoEnabled s
            then appliedConstraints s
                   @ [getQualityForState (s\<lparr>availableVideosThreshold := payload_threshold m\<rparr>)]
            else appliedConstraints s)))
   \<and> (msg_type m = ''control'' \<and> payload_action m = ''forceAvailableAudiosThreshold''
      \<and> (\<forall>i. THUMBNAIL \<le> i \<and> i \<le> HIGH \<longrightarrow> payload_threshold m i \<noteq> None) \<longrightarrow>
    (\<exists>s'. handleSignalingMessage m s = Inr s'
       \<and> availableAudiosThreshold s' = payload_threshold m
       \<and> availableVideosThreshold s' = availableVideosThreshold s
       \<and> notified s' =
           notified s @ map (\<lambda>h. (h, ''change:availableAudiosThreshold'', payload_threshold m))
                          (listeners s ''change:availableAudiosThreshold'')
       \<and> appliedConstraints s' =
           (if lm_videoAvailable s \<and> lm_videoEnabled s
            then appliedConstraints s
                   @ [getQualityForState (s\<lparr>availableAudiosThreshold := payload_threshold m\<rparr>)]
            else appliedConstraints s)))
   \<and> (msg_type m = ''control''
      \<and> (payload_action m = ''forceAvailableVideosThreshold''
          \<or> payload_action m = ''forceAvailableAudiosThreshold'')
      \<and> (\<exists>i. THUMBNAIL \<le> i \<and> i \<le> HIGH \<and> payload_threshold m i = None) \<longrightarrow>
    (\<exists>e. handleSignalingMessage m s = Inl e)
    \<and> snd (call (handleSignalingMessage m) s) = s)
   \<and> (msg_type m \<noteq> ''control''
      \<or> (payload_action m \<noteq> ''forceAvailableVideosThreshold''
          \<and> payload_action m \<noteq> ''forceAvailableAudiosThreshold'') \<longrightarrow>
    handleSignalingMessage m s = Inr s)"
proof (intro conjI impI)
  assume a: "msg_type m = ''control'' \<and> payload_action m = ''forceAvailableVideosThreshold''
      \<and> (\<forall>i. THUMBNAIL \<le> i \<and> i \<le> HIGH \<longrightarrow> payload_threshold m i \<noteq> None)"
  then have "handleSignalingMessage m s =
      Inr (adjustVideoQualityIfNeeded
            (trigger ''change:availableVideosThreshold'' (payload_threshold m)
              (s\<lparr>availableVideosThreshold := payload_threshold m\<rparr>)))"
    by (simp add: handleSignalingMessage_def setAvailableVideosThreshold_complete)
  then show "\<exists>s'. handleSignalingMessage m s = Inr s'
       \<and> availableVideosThreshold s' = payload_threshold m
       \<and> availableAudiosThreshold s' = availableAudiosThreshold s
       \<and> notified s' =
           notified s @ map (\<lambda>h. (h, ''change:availableVideosThreshold'', payload_threshold m))
                          (listeners s ''change:availableVideosThreshold'')
       \<and> appliedConstraints s' =
           (if lm_videoAvailable s \<and> lm_videoEnabled s
            then appliedConstraints s
                   @ [getQualityForState (s\<lparr>availableVideosThreshold := payload_threshold m\<rparr>)]
            else appliedConstraints s)"
    using replaced_videos [of "payload_threshold m" s] by blast
next
  assume a: "msg_type m = ''control'' \<and> payload_action m = ''forceAvailableAudiosThreshold''
      \<and> (\<forall>i. THUMBNAIL \<le> i \<and> i \<le> HIGH \<longrightarrow> payload_threshold m i \<noteq> None)"
  then have "handleSignalingMessage m s =
      Inr (adjustVideoQualityIfNeeded
            (trigger ''change:availableAudiosThreshold'' (payload_threshold m)
              (s\<lparr>availableAudiosThreshold := payload_threshold m\<rparr>)))"
    by (simp add: handleSignalingMessage_def setAvailableAudiosThreshold_complete)
  then show "\<exists>s'. handleSignalingMessage m s = Inr s'
       \<and> availableAudiosThreshold s' = payload_threshold m
       \<and> availableVideosThreshold s' = availableVideosThreshold s
       \<and> notified s' =
           notified s @ map (\<lambda>h. (h, ''change:availableAudiosThreshold'', payload_threshold m))
                          (listeners s ''change:availableAudiosThreshold'')
       \<and> appliedConstraints s' =
           (if lm_videoAvailable s \<and> lm_videoEnabled s
            then appliedConstraints s
                   @ [getQualityForState (s\<lparr>availableAudiosThreshold := payload_threshold m\<rparr>)]
            else appliedConstraints s)"
    using replaced_audios [of "payload_threshold m" s] by blast
next
  assume a: "msg_type m = ''control''
      \<and> (payload_action m = ''forceAvailableVideosThreshold''
          \<or> payload_action m = ''forceAvailableAudiosThreshold'')
      \<and> (\<exists>i. THUMBNAIL \<le> i \<and> i \<le> HIGH \<and> payload_threshold m i = None)"
  then obtain e where "validateThreshold (payload_threshold m) = Inl e"
    using validateThreshold_fails_iff [of "payload_threshold m"] by blast
  with a have thrown: "\<exists>e. handleSignalingMessage m s = Inl e"
    by (auto simp: handleSignalingMessage_def setAvailableVideosThreshold_def
        setAvailableAudiosThreshold_def)
  then show "\<exists>e. handleSignalingMessage m s = Inl e" .
  from thrown show "snd (call (handleSignalingMessage m) s) = s"
    by (auto simp: call_def)
next
  assume "msg_type m \<noteq> ''control''
      \<or> (payload_action m \<noteq> ''forceAvailableVideosThreshold''
          \<and> payload_action m \<noteq> ''forceAvailableAudiosThreshold'')"
  then show "handleSignalingMessage m s = Inr s"
    by (auto simp: handleSignalingMessage_def)
qed

lemma observingWithListener_facts:
  "lm_videoAvailable observingWithListener" "lm_videoEnabled observingWithListener"
  "\<not> speakingOrInGracePeriodAfterSpeaking observingWithListener"
  "callParticipantModels observingWithListener = callParticipantModels observing"
  "availableAudiosThreshold observingWithListener = defaultAvailableAudiosThreshold"
  "notified observingWithListener = []"
  "listeners observingWithListener ''change:availableVideosThreshold'' = [7]"
  by (simp_all add: observingWithListener_def on_def listeners_def observing_eq)

lemma observingWithListener_LOW:
  "getQualityForState (observingWithListener\<lparr>availableVideosThreshold := moderatorThreshold\<rparr>) = LOW"
proof -
  let ?s = "observingWithListener\<lparr>availableVideosThreshold := moderatorThreshold\<rparr>"
  have c: "availableVideosCount ?s = 5" "availableAudiosCount ?s = 5"
    using observing_facts(6,7)
    by (simp_all add: availableVideosCount_def availableAudiosCount_def
        observingWithListener_facts(4))
  have "\<not> thresholdReached ?s THUMBNAIL" "\<not> thresholdReached ?s VERY_LOW"
    "thresholdReached ?s LOW"
    unfolding thresholdReached_def c
    by (simp_all add: observingWithListener_facts(5) moderatorThreshold_def
        defaultAvailableAudiosThreshold_def reaches_simps QUALITY_defs)
  then show ?thesis
    by (simp add: getQualityForState_find observingWithListener_facts(3))
qed

theorem handleSignalingMessage_control_witness:
  "(\<exists>s'. handleSignalingMessage (forceVideos moderatorThreshold) observingWithListener = Inr s'
      \<and> availableVideosThreshold s' = moderatorThreshold
      \<and> notified s' = [(7, ''change:availableVideosThreshold'', moderatorThreshold)]
      \<and> appliedConstraints s' = appliedConstraints observingWithListener @ [LOW])
   \<and> (\<exists>e. handleSignalingMessage (forceAudios scenarioThreshold) observingWithListener = Inl e)
   \<and> snd (call (handleSignalingMessage (forceAudios scenarioThreshold)) observingWithListener) =
       observingWithListener
   \<and> handleSignalingMessage forceMute observingWithListener = Inr observingWithListener"
proof -
  have full: "msg_type (forceVideos moderatorThreshold) = ''control''
      \<and> payload_action (forceVideos moderatorThreshold) = ''forceAvailableVideosThreshold''
      \<and> (\<forall>i. THUMBNAIL \<le> i \<and> i \<le> HIGH \<longrightarrow>
            payload_threshold (forceVideos moderatorThreshold) i \<noteq> None)"
    using defaults_complete(3) by (simp add: forceVideos_def)
  from handleSignalingMessage_control [of "forceVideos moderatorThreshold" observingWithListener,
      THEN conjunct1] full
  obtain s' where s': "handleSignalingMessage (forceVideos moderatorThreshold) observingWithListener = Inr s'"
    "availableVideosThreshold s' = payload_threshold (forceVideos moderatorThreshold)"
    "notified s' =
       notified observingWithListener
         @ map (\<lambda>h. (h, ''change:availableVideosThreshold'',
                      payload_threshold (forceVideos moderatorThreshold)))
             (listeners observingWithListener ''change:availableVideosThreshold'')"
    "appliedConstraints s' =
       (if lm_videoAvailable observingWithListener \<and> lm_videoEnabled observingWithListener
        then appliedConstraints observingWithListener
               @ [getQualityForState
                    (observingWithListener\<lparr>availableVideosThreshold :=
                       payload_threshold (forceVideos moderatorThreshold)\<rparr>)]
        else appliedConstraints observingWithListener)"
    by blast
  have p: "payload_threshold (forceVideos moderatorThreshold) = moderatorThreshold"
    by (simp add: forceVideos_def)
  have 1: "\<exists>s'. handleSignalingMessage (forceVideos moderatorThreshold) observingWithListener = Inr s'
      \<and> availableVideosThreshold s' = moderatorThreshold
      \<and> notified s' = [(7, ''change:availableVideosThreshold'', moderatorThreshold)]
      \<and> appliedConstraints s' = appliedConstraints observingWithListener @ [LOW]"
    using s' unfolding p
    by (intro exI [of _ s'])
      (simp add: observingWithListener_facts(1,2,6,7) observingWithListener_LOW)
  have missing: "msg_type (forceAudios scenarioThreshold) = ''control''
      \<and> (payload_action (forceAudios scenarioThreshold) = ''forceAvailableVideosThreshold''
          \<or> payload_action (forceAudios scenarioThreshold) = ''forceAvailableAudiosThreshold'')
      \<and> (\<exists>i. THUMBNAIL \<le> i \<and> i \<le> HIGH
            \<and> payload_threshold (forceAudios scenarioThreshold) i = None)"
    using scenarioThreshold_entries(5)
    by (auto simp: forceAudios_def intro!: exI [of _ HIGH] simp: QUALITY_defs)
  have 2: "(\<exists>e. handleSignalingMessage (forceAudios scenarioThreshold) observingWithListener = Inl e)
      \<and> snd (call (handleSignalingMessage (forceAudios scenarioThreshold)) observingWithListener) =
          observingWithListener"
    using handleSignalingMessage_control [of "forceAudios scenarioThreshold" observingWithListener]
      missing by blast
  have other: "msg_type forceMute \<noteq> ''control''
      \<or> (payload_action forceMute \<noteq> ''forceAvailableVideosThreshold''
          \<and> payload_action forceMute \<noteq> ''forceAvailableAudiosThreshold'')"
    by (simp add: forceMute_def)
  have 3: "handleSignalingMessage forceMute observingWithListener = Inr observingWithListener"
    using handleSignalingMessage_control [of forceMute observingWithListener] other by blast
  from 1 2 3 show ?thesis by blast
qed

section \<open>The grace period handlers\<close>

text \<open>
  What the three places that touch the grace state do to the flag, the handle and the
  pending timers. The speaking branch and the audio handler clear the timer of the
  handle; the branch that schedules a timer keeps every pending timer and overwrites the
  handle.
\<close>

lemma adjustVideoQualityIfNeeded_grace [simp]:
  "speakingOrInGracePeriodAfterSpeaking (adjustVideoQualityIfNeeded s) =
     speakingOrInGracePeriodAfterSpeaking s"
  "gracePeriodAfterSpeakingTimeout (adjustVideoQualityIfNeeded s) =
     gracePeriodAfterSpeakingTimeout s"
  "timeouts (adjustVideoQualityIfNeeded s) = timeouts s"
  "clock (adjustVideoQualityIfNeeded s) = clock s"
  by (simp_all add: adjustVideoQualityIfNeeded_def)

lemma handleLocalSpeakingChange_speaking:
  assumes "lm_speaking s"
  shows "speakingOrInGracePeriodAfterSpeaking (handleLocalSpeakingChange s)"
    and "gracePeriodAfterSpeakingTimeout (handleLocalSpeakingChange s) = None"
    and "timeouts (handleLocalSpeakingChange s) =
           filter (\<lambda>t. Some (fst t) \<noteq> gracePeriodAfterSpeakingTimeout s) (timeouts s)"
  using assms
  by (auto simp: handleLocalSpeakingChange_def clearTimeout_def split: option.splits
      intro: filter_cong)

lemma handleLocalSpeakingChange_silent:
  assumes "\<not> lm_speaking s"
  shows "speakingOrInGracePeriodAfterSpeaking (handleLocalSpeakingChange s) =
           speakingOrInGracePeriodAfterSpeaking s"
    and "gracePeriodAfterSpeakingTimeout (handleLocalSpeakingChange s) = Some (nextTimeout s)"
    and "timeouts (handleLocalSpeakingChange s) =
           timeouts s @ [(nextTimeout s, clock s + 5000)]"
    and "appliedConstraints (handleLocalSpeakingChange s) = appliedConstraints s"
  using assms by (simp_all add: handleLocalSpeakingChange_def setTimeout_def)

lemma handleLocalAudioEnabledChange_muted:
  assumes "\<not> lm_audioEnabled s"
  shows "\<not> speakingOrInGracePeriodAfterSpeaking (handleLocalAudioEnabledChange s)"
    and "gracePeriodAfterSpeakingTimeout (handleLocalAudioEnabledChange s) = None"
    and "timeouts (handleLocalAudioEnabledChange s) =
           filter (\<lambda>t. Some (fst t) \<noteq> gracePeriodAfterSpeakingTimeout s) (timeouts s)"
  using assms
  by (auto simp: handleLocalAudioEnabledChange_def clearTimeout_def split: option.splits
      intro: filter_cong)

lemma gracePeriodCallback_expires:
  "\<not> speakingOrInGracePeriodAfterSpeaking (gracePeriodCallback s)"
  "timeouts (gracePeriodCallback s) = timeouts s"
  by (simp_all add: gracePeriodCallback_def)

text \<open>
  As long as the throttler holds every pending timer, muting or speaking leaves no timer
  pending, and a participant who speaks and stops has one timer, due five seconds after
  the stop; the flag is true until that timer fires and false afterwards.
\<close>

lemma heldOnly_cleared:
  assumes "heldOnly s"
  shows "filter (\<lambda>t. Some (fst t) \<noteq> gracePeriodAfterSpeakingTimeout s) (timeouts s) = []"
  using assms by (auto simp: heldOnly_def filter_empty_conv)

lemma muted_no_timer:
  assumes "\<not> lm_audioEnabled s" and "heldOnly s"
  shows "timeouts (handleLocalAudioEnabledChange s) = []"
  using handleLocalAudioEnabledChange_muted(3) [OF assms(1)] heldOnly_cleared [OF assms(2)]
  by simp

lemma speaking_no_timer:
  assumes "lm_speaking s" and "heldOnly s"
  shows "timeouts (handleLocalSpeakingChange s) = []"
  using handleLocalSpeakingChange_speaking(3) [OF assms(1)] heldOnly_cleared [OF assms(2)]
  by simp

lemma stopped_speaking_one_timer:
  assumes "lm_speaking s" and "heldOnly s"
  defines "s' \<equiv> handleLocalSpeakingChange ((handleLocalSpeakingChange s)\<lparr>lm_speaking := False\<rparr>)"
  shows "speakingOrInGracePeriodAfterSpeaking s'"
    and "timeouts s' = [(nextTimeout s, clock s + 5000)]"
    and "gracePeriodAfterSpeakingTimeout s' = Some (nextTimeout s)"
    and "d < 5000 \<Longrightarrow> speakingOrInGracePeriodAfterSpeaking (elapse d s')"
    and "5000 \<le> d \<Longrightarrow> \<not> speakingOrInGracePeriodAfterSpeaking (elapse d s')"
    and "5000 \<le> d \<Longrightarrow> timeouts (elapse d s') = []"
proof -
  let ?t = "(handleLocalSpeakingChange s)\<lparr>lm_speaking := False\<rparr>"
  have t: "timeouts ?t = []" "speakingOrInGracePeriodAfterSpeaking ?t"
    "nextTimeout ?t = nextTimeout s" "clock ?t = clock s" "\<not> lm_speaking ?t"
    using speaking_no_timer [OF assms(1,2)] handleLocalSpeakingChange_speaking(1) [OF assms(1)]
      assms(1)
    by (simp_all add: handleLocalSpeakingChange_def clearTimeout_def
        adjustVideoQualityIfNeeded_def split: option.splits)
  show 1: "speakingOrInGracePeriodAfterSpeaking s'"
    unfolding s'_def using handleLocalSpeakingChange_silent(1) [OF t(5)] t(2) by simp
  show 2: "timeouts s' = [(nextTimeout s, clock s + 5000)]"
    unfolding s'_def using handleLocalSpeakingChange_silent(3) [OF t(5)] t(1,3,4) by simp
  show "gracePeriodAfterSpeakingTimeout s' = Some (nextTimeout s)"
    unfolding s'_def using handleLocalSpeakingChange_silent(2) [OF t(5)] t(3) by simp
  have c: "clock s' = clock s"
    unfolding s'_def using t(4,5) by (simp add: handleLocalSpeakingChange_def setTimeout_def)
  show "d < 5000 \<Longrightarrow> speakingOrInGracePeriodAfterSpeaking (elapse d s')"
    using 1 2 c by (simp add: elapse_def)
  show "5000 \<le> d \<Longrightarrow> \<not> speakingOrInGracePeriodAfterSpeaking (elapse d s')"
    using 2 c by (simp add: elapse_def gracePeriodCallback_def)
  show "5000 \<le> d \<Longrightarrow> timeouts (elapse d s') = []"
    using 2 c by (simp add: elapse_def gracePeriodCallback_def)
qed

lemma reentered_eq:
  "reentered =
     \<lparr>lm_videoAvailable = True, lm_videoEnabled = True, lm_audioEnabled = True,
      lm_speaking = False,
      lm_handlers =
        [(''change:videoAvailable'', HandleLocalVideoAvailableChangeBound),
         (''change:videoEnabled'', AdjustVideoQualityIfNeededBound),
         (''change:audioEnabled'', HandleLocalAudioEnabledChangeBound),
         (''change:speaking'', HandleLocalSpeakingChangeBound)],
      callParticipantModels = [],
      cpc_handlers =
        [(''add'', HandleAddParticipantBound), (''remove'', HandleRemoveParticipantBound)],
      signaling_handlers = [(''message'', HandleSignalingMessageBound)],
      clock = 2000, timeouts = [(1, 5000), (2, 7000)], nextTimeout = 3,
      appliedConstraints = [HIGH, HIGH, HIGH], handlers = Map.empty, notified = [],
      gracePeriodAfterSpeakingTimeout = Some 2,
      speakingOrInGracePeriodAfterSpeaking = True,
      availableVideosThreshold = defaultAvailableVideosThreshold,
      availableAudiosThreshold = defaultAvailableAudiosThreshold\<rparr>"
  by (simp add: reentered_def evaluation)

text \<open>
  C8: in every reachable state at most one grace-period timer is pending, because whatever
  schedules a timer first cancels the one scheduled before. The code does not keep this
  invariant. The participant stops speaking (timer 1, due at 5000 ms); local video
  becomes unavailable and is available again two seconds after the stop. On entering
  the listening phase again, \<open>handleLocalSpeakingChange\<close> schedules timer 2 without
  clearing timer 1 and overwrites the handle: two timers are pending, and when both have
  fired the quality has been evaluated twice.
\<close>

theorem two_grace_timers_pending:
  "timeouts reentered = [(1, 5000), (2, 7000)]
   \<and> gracePeriodAfterSpeakingTimeout reentered = Some 2
   \<and> clock reentered = 2000
   \<and> timeouts (run [Elapse 5000] reentered) = []
   \<and> appliedConstraints (run [Elapse 5000] reentered) =
       appliedConstraints reentered @ [HIGH, HIGH]"
  by (simp add: reentered_eq evaluation)

text \<open>
  C7: when \<open>audioEnabled\<close> becomes false the flag is forced to false, any pending
  grace-period timer is cancelled and the quality is evaluated again. In the call above,
  where two timers are pending, the participant mutes: the audio handler forces the flag
  to false and clears timer 2, the timer of the handle, but timer 1 is still pending
  after the handler has run.
\<close>

theorem muting_leaves_timer_pending:
  "lm_audioEnabled reentered
   \<and> timeouts reentered = [(1, 5000), (2, 7000)]
   \<and> \<not> lm_audioEnabled (run [AudioEnabled False] reentered)
   \<and> \<not> speakingOrInGracePeriodAfterSpeaking (run [AudioEnabled False] reentered)
   \<and> gracePeriodAfterSpeakingTimeout (run [AudioEnabled False] reentered) = None
   \<and> timeouts (run [AudioEnabled False] reentered) = [(1, 5000)]"
  by (simp add: reentered_eq evaluation)

lemma stoppedSpeakingAgain_state:
  "lm_audioEnabled stoppedSpeakingAgain" "\<not> lm_speaking stoppedSpeakingAgain"
  "clock stoppedSpeakingAgain = 4000"
  "speakingOrInGracePeriodAfterSpeaking stoppedSpeakingAgain"
  "gracePeriodAfterSpeakingTimeout stoppedSpeakingAgain = Some 3"
  "timeouts stoppedSpeakingAgain = [(1, 5000), (3, 9000)]"
  by (simp_all add: stoppedSpeakingAgain_def reentered_eq evaluation)

text \<open>
  C6: after speaking has become true and then false, with audio enabled throughout, the
  flag stays true for the five seconds of the grace period and becomes false when the
  timer scheduled at the stop fires. In the call above the participant speaks again
  three seconds after the first stop and stops one second later, at 4000 ms: the flag is
  true and timer 3 is due at 9000 ms. Timer 1, which speaking again did not clear, fires
  at 5000 ms and sets the flag to false, one second after the participant stopped
  speaking, while timer 3 is still pending.
\<close>

theorem grace_period_cut_short:
  "lm_audioEnabled stoppedSpeakingAgain
   \<and> \<not> lm_speaking stoppedSpeakingAgain
   \<and> clock stoppedSpeakingAgain = 4000
   \<and> speakingOrInGracePeriodAfterSpeaking stoppedSpeakingAgain
   \<and> gracePeriodAfterSpeakingTimeout stoppedSpeakingAgain = Some 3
   \<and> timeouts stoppedSpeakingAgain = [(1, 5000), (3, 9000)]
   \<and> clock (run [Elapse 1000] stoppedSpeakingAgain) = 5000
   \<and> \<not> speakingOrInGracePeriodAfterSpeaking (run [Elapse 1000] stoppedSpeakingAgain)
   \<and> timeouts (run [Elapse 1000] stoppedSpeakingAgain) = [(3, 9000)]"
  by (simp add: stoppedSpeakingAgain_state elapse_def gracePeriodCallback_def)

section \<open>Teardown\<close>

lemma destroy_fields [simp]:
  "signaling_handlers (destroy s) = signaling_handlers s"
  "lm_videoAvailable (destroy s) = lm_videoAvailable s"
  "lm_videoEnabled (destroy s) = lm_videoEnabled s"
  "appliedConstraints (destroy s) = appliedConstraints s"
  "notified (destroy s) = notified s"
  "handlers (destroy s) = handlers s"
  "speakingOrInGracePeriodAfterSpeaking (destroy s) = speakingOrInGracePeriodAfterSpeaking s"
  "availableVideosThreshold (destroy s) = availableVideosThreshold s"
  "availableAudiosThreshold (destroy s) = availableAudiosThreshold s"
  by (simp_all add: destroy_def stopListeningToChanges_def)

lemma destroy_availableVideosCount:
  "availableVideosCount ((destroy s)\<lparr>availableVideosThreshold := t\<rparr>) = availableVideosCount s"
  by (simp add: availableVideosCount_def destroy_def stopListeningToChanges_def filter_map o_def)

text \<open>
  C9: \<open>destroy\<close> can be called several times and leaves no subscription on the local
  media model, the collection, the participants or the signaling object. It does remove
  the subscriptions on the local media model, on the collection and on every
  participant, and a second call changes nothing more. The subscription on the
  signaling object, made by the constructor, is still there after \<open>destroy\<close>: a
  control message that arrives later replaces the video table of the destroyed
  throttler and makes it call \<open>applyConstraints\<close>, here with \<open>THUMBNAIL\<close>.
\<close>

theorem destroy_keeps_signaling_subscription:
  "lm_handlers (destroy observing) = []
   \<and> cpc_handlers (destroy observing) = []
   \<and> concat (map p_handlers (callParticipantModels (destroy observing))) = []
   \<and> destroy (destroy observing) = destroy observing
   \<and> signaling_handlers (destroy observing) = [(''message'', HandleSignalingMessageBound)]
   \<and> availableVideosThreshold (run [SignalingMessage (forceVideos lowestThreshold)]
         (destroy observing)) = lowestThreshold
   \<and> appliedConstraints (run [SignalingMessage (forceVideos lowestThreshold)]
         (destroy observing)) = appliedConstraints (destroy observing) @ [THUMBNAIL]"
proof -
  have 1: "lm_handlers (destroy observing) = []" "cpc_handlers (destroy observing) = []"
    by (simp_all add: destroy_def stopListeningToChanges_def unsubscribe_def observing_eq)
  have 2: "concat (map p_handlers (callParticipantModels (destroy observing))) = []"
    by (simp add: destroy_def stopListeningToChanges_def unsubscribe_def observing_eq)
  have 3: "destroy (destroy observing) = destroy observing"
    by (simp add: destroy_def stopListeningToChanges_def unsubscribe_def observing_eq)
  have full: "\<forall>i. THUMBNAIL \<le> i \<and> i \<le> HIGH \<longrightarrow> lowestThreshold i \<noteq> None"
  proof (intro allI impI)
    fix i assume "THUMBNAIL \<le> i \<and> i \<le> HIGH"
    then show "lowestThreshold i \<noteq> None"
      using level_cases [of i] by (auto simp: lowestThreshold_def QUALITY_defs)
  qed
  let ?s = "(destroy observing)\<lparr>availableVideosThreshold := lowestThreshold\<rparr>"
  have c: "availableVideosCount ?s = 5"
    using observing_facts(6) by (simp add: destroy_availableVideosCount)
  have t: "lowestThreshold THUMBNAIL = Some 0"
    by (simp add: lowestThreshold_def QUALITY_defs)
  have r: "thresholdReached ?s THUMBNAIL"
    by (simp add: thresholdReached_def c t reaches_simps)
  have q: "getQualityForState ?s = THUMBNAIL"
    using observing_facts(1) r by (simp add: getQualityForState_find)
  have h: "handleSignalingMessage (forceVideos lowestThreshold) (destroy observing) =
      Inr (adjustVideoQualityIfNeeded
            (trigger ''change:availableVideosThreshold'' lowestThreshold ?s))"
    using setAvailableVideosThreshold_complete [OF full, of "destroy observing"]
    by (simp add: handleSignalingMessage_def forceVideos_def)
  have d: "run [SignalingMessage (forceVideos lowestThreshold)] (destroy observing) =
      adjustVideoQualityIfNeeded
        (trigger ''change:availableVideosThreshold'' lowestThreshold ?s)"
    by (simp add: observing_signaling h call_def)
  have 4: "availableVideosThreshold (run [SignalingMessage (forceVideos lowestThreshold)]
         (destroy observing)) = lowestThreshold"
    unfolding d using replaced_videos(1) [of lowestThreshold "destroy observing"] .
  have 5: "appliedConstraints (run [SignalingMessage (forceVideos lowestThreshold)]
         (destroy observing)) = appliedConstraints (destroy observing) @ [THUMBNAIL]"
    unfolding d using replaced_videos(4) [of lowestThreshold "destroy observing"] q
    by (simp add: observing_facts)
  show ?thesis
    using 1 2 3 4 5 by (simp add: observing_signaling)
qed

end
